theory Spec2Isabelle
  imports Complex_Main "HOL-Library.AList"
begin

section \<open>JavaScript strings\<close>

text \<open>
  Strings are lists of characters, and a character is a code unit below 256 (Basic Latin
  and Latin-1 Supplement); strings with other code units are outside the model. Among
  these characters \<^verbatim>\<open>String.prototype.trim\<close> and the regular expression class
  \<^verbatim>\<open>\s\<close> accept tab, line feed, vertical tab, form feed, carriage return, space and
  the no-break space \<^verbatim>\<open>U+00A0\<close>.
\<close>

definition is_space :: "char \<Rightarrow> bool" where
  "is_space c = (of_char c \<in> {9, 10, 11, 12, 13, 32, 160 :: nat})"

definition trim :: "string \<Rightarrow> string" where
  "trim s = rev (dropWhile is_space (rev (dropWhile is_space s)))"

text \<open>
  \<^verbatim>\<open>toLowerCase\<close>: the upper case letters among these characters are \<^verbatim>\<open>A\<close> to
  \<^verbatim>\<open>Z\<close> (65 to 90) and \<^verbatim>\<open>U+00C0\<close> to \<^verbatim>\<open>U+00DE\<close> (192 to 222) without the
  multiplication sign \<^verbatim>\<open>U+00D7\<close> (215); each has its lower case letter 32 places
  further on.
\<close>

definition lower_char :: "char \<Rightarrow> char" where
  "lower_char c =
     (let n = of_char c :: nat
      in if (65 \<le> n \<and> n \<le> 90) \<or> (192 \<le> n \<and> n \<le> 222 \<and> n \<noteq> 215)
         then char_of (n + 32) else c)"

definition toLowerCase :: "string \<Rightarrow> string" where
  "toLowerCase s = map lower_char s"

text \<open>
  \<^verbatim>\<open>s.substring(a, b)\<close>: both indices are clamped to \<open>[0, length]\<close> and swapped
  when they come in the wrong order.
\<close>

definition substring :: "string \<Rightarrow> int \<Rightarrow> int \<Rightarrow> string" where
  "substring s a b =
     (let n = int (length s);
          a' = min (max a 0) n;
          b' = min (max b 0) n;
          lo = min a' b';
          hi = max a' b'
      in take (nat (hi - lo)) (drop (nat lo) s))"

text \<open>
  \<^verbatim>\<open>s.lastIndexOf(pat, from)\<close>: the greatest index \<open>i \<le> from\<close> at which \<open>pat\<close>
  occurs in \<open>s\<close>, or \<open>-1\<close>. The position \<open>from\<close> itself is a candidate.
\<close>

fun lastIndexDown :: "string \<Rightarrow> string \<Rightarrow> nat \<Rightarrow> int" where
  "lastIndexDown s pat i =
     (if take (length pat) (drop i s) = pat then int i
      else if i = 0 then - 1
      else lastIndexDown s pat (i - 1))"

declare lastIndexDown.simps [simp del]

definition lastIndexOf :: "string \<Rightarrow> string \<Rightarrow> int \<Rightarrow> int" where
  "lastIndexOf s pat from =
     (if length s < length pat then - 1
      else lastIndexDown s pat (min (nat (max from 0)) (length s - length pat)))"

text \<open>
  \<^verbatim>\<open>s.split(/[class]+/)\<close> for a character class: the pieces between maximal runs
  of class characters. A run at the start or at the end of the string leaves an empty
  piece there, and the empty string splits into one empty piece.
\<close>

function split_on :: "(char \<Rightarrow> bool) \<Rightarrow> string \<Rightarrow> string list" where
  "split_on sep s =
     (let w = takeWhile (\<lambda>c. \<not> sep c) s;
          r = dropWhile (\<lambda>c. \<not> sep c) s
      in if r = [] then [w] else w # split_on sep (dropWhile sep r))"
  by pat_completeness auto
termination
proof (relation "measure (\<lambda>(sep, s). length s)")
  show "wf (measure (\<lambda>(sep, s). length s))" by simp
next
  fix sep :: "char \<Rightarrow> bool" and s w r :: string
  assume r: "r = dropWhile (\<lambda>c. \<not> sep c) s" and ne: "r \<noteq> []"
  from ne obtain c cs where rc: "r = c # cs" by (cases r) auto
  have "dropWhile (\<lambda>c. \<not> sep c) s \<noteq> []" using ne r by simp
  from hd_dropWhile [OF this] have "sep (hd r)" using r by simp
  then have "sep c" using rc by simp
  then have "length (dropWhile sep r) \<le> length cs"
    using rc by (simp add: length_dropWhile_le)
  also have "length cs < length r" using rc by simp
  also have "length r \<le> length s" using r by (simp add: length_dropWhile_le)
  finally show "((sep, dropWhile sep r), (sep, s)) \<in> measure (\<lambda>(sep, s). length s)"
    by simp
qed

declare split_on.simps [simp del]

section \<open>Chunker: EmbeddingService.splitIntoChunks\<close>

text \<open>
  \<^verbatim>\<open>chunkSize\<close> and \<^verbatim>\<open>chunkOverlap\<close> are fields of the service (1000 and 200 after
  construction); the model takes them as arguments. The test
  \<^verbatim>\<open>breakPoint > startIndex + chunkSize * 0.5\<close> is written with both sides doubled.
\<close>

record chunk =
  c_text :: string
  c_startIndex :: int
  c_endIndex :: int

definition chunkEndOf :: "int \<Rightarrow> string \<Rightarrow> int \<Rightarrow> int" where
  "chunkEndOf chunkSize text startIndex =
     (let endIndex = min (startIndex + chunkSize) (int (length text))
      in if endIndex < int (length text) then
           (let lastSentenceEnd = lastIndexOf text ''.'' endIndex;
                lastParagraphEnd = lastIndexOf text [CHR 0x0A, CHR 0x0A] endIndex;
                breakPoint = max lastSentenceEnd lastParagraphEnd
            in if 2 * breakPoint > 2 * startIndex + chunkSize then breakPoint + 1
               else endIndex)
         else endIndex)"

function splitLoop :: "int \<Rightarrow> int \<Rightarrow> string \<Rightarrow> int \<Rightarrow> chunk list" where
  "splitLoop chunkSize chunkOverlap text startIndex =
     (if startIndex < int (length text) then
        (let chunkEnd = chunkEndOf chunkSize text startIndex;
             chunkText = trim (substring text startIndex chunkEnd)
         in (if length chunkText > 0
             then [\<lparr>c_text = chunkText, c_startIndex = startIndex, c_endIndex = chunkEnd\<rparr>]
             else [])
            @ splitLoop chunkSize chunkOverlap text
                (max (chunkEnd - chunkOverlap) (startIndex + 1)))
      else [])"
  by pat_completeness auto
termination
  by (relation "measure (\<lambda>(cs, ov, text, i). nat (int (length text) - i))") auto

declare splitLoop.simps [simp del]

definition splitIntoChunks :: "int \<Rightarrow> int \<Rightarrow> string \<Rightarrow> chunk list" where
  "splitIntoChunks chunkSize chunkOverlap text = splitLoop chunkSize chunkOverlap text 0"

section \<open>Errors\<close>

text \<open>
  An exception is a value: a function that can throw returns \<open>error + 'a\<close>, with
  \<open>Inl\<close> for the exception. \<open>tryCatch\<close> is a \<^verbatim>\<open>try { ... } catch (error) { ... }\<close>
  block around a body.
\<close>

datatype error = TypeError | SyntaxError | LibraryError | DatabaseError

definition tryCatch :: "error + 'a \<Rightarrow> (error \<Rightarrow> error + 'a) \<Rightarrow> error + 'a" where
  "tryCatch body handler = (case body of Inl e \<Rightarrow> handler e | Inr x \<Rightarrow> Inr x)"

text \<open>\<^verbatim>\<open>xs.slice(0, n)\<close>: a negative \<open>n\<close> counts from the end of the array.\<close>

definition slice0 :: "'a list \<Rightarrow> int \<Rightarrow> 'a list" where
  "slice0 xs n = (if 0 \<le> n then take (nat n) xs else take (nat (int (length xs) + n)) xs)"

section \<open>Highlighter: SearchService.generateHighlights\<close>

record highlight =
  h_text :: string
  startIndex :: nat
  endIndex :: nat
  h_type :: string

text \<open>
  The regular expression engine belongs to the JavaScript runtime. A \<open>matcher\<close> stands for
  \<^verbatim>\<open>[...content.matchAll(new RegExp(`(${word})`, 'gi'))]\<close>: given the word and the
  content it yields the matches as pairs of \<^verbatim>\<open>match.index\<close> and \<^verbatim>\<open>match[0]\<close>, or
  the \<^verbatim>\<open>SyntaxError\<close> of a word that is not a well-formed pattern.
\<close>

type_synonym matcher = "string \<Rightarrow> string \<Rightarrow> error + (nat \<times> string) list"

definition toHighlight :: "nat \<times> string \<Rightarrow> highlight" where
  "toHighlight m =
     \<lparr>h_text = snd m, startIndex = fst m, endIndex = fst m + length (snd m),
      h_type = ''keyword''\<rparr>"

fun collectHighlights :: "matcher \<Rightarrow> string \<Rightarrow> string list \<Rightarrow> error + highlight list" where
  "collectHighlights re content [] = Inr []"
| "collectHighlights re content (word # ws) =
     (if length word > 2 then
        (case re word content of
           Inl e \<Rightarrow> Inl e
         | Inr matches \<Rightarrow>
             (case collectHighlights re content ws of
                Inl e \<Rightarrow> Inl e
              | Inr hs \<Rightarrow> Inr (map toHighlight matches @ hs)))
      else collectHighlights re content ws)"

definition hasOverlap :: "highlight list \<Rightarrow> highlight \<Rightarrow> bool" where
  "hasOverlap filteredHighlights h =
     list_ex (\<lambda>existing.
        (startIndex h \<ge> startIndex existing \<and> startIndex h < endIndex existing) \<or>
        (endIndex h > startIndex existing \<and> endIndex h \<le> endIndex existing))
       filteredHighlights"

fun removeOverlaps :: "highlight list \<Rightarrow> highlight list \<Rightarrow> highlight list" where
  "removeOverlaps filteredHighlights [] = filteredHighlights"
| "removeOverlaps filteredHighlights (h # hs) =
     (if hasOverlap filteredHighlights h then removeOverlaps filteredHighlights hs
      else removeOverlaps (filteredHighlights @ [h]) hs)"

definition generateHighlights :: "matcher \<Rightarrow> string \<Rightarrow> string \<Rightarrow> error + highlight list" where
  "generateHighlights re content query =
     (let queryWords = split_on is_space (toLowerCase query)
      in case collectHighlights re content queryWords of
           Inl e \<Rightarrow> Inl e
         | Inr highlights \<Rightarrow>
             (let sortedHighlights = sort_key startIndex highlights;
                  filteredHighlights = removeOverlaps [] sortedHighlights
              in Inr (take 10 filteredHighlights)))"

text \<open>
  A matcher to compute with: for a word of letters and digits the pattern is the word
  itself, matched without regard to case, from left to right, a match resuming the scan
  behind its end.
\<close>

fun literalScan :: "string \<Rightarrow> string \<Rightarrow> nat \<Rightarrow> nat \<Rightarrow> (nat \<times> string) list" where
  "literalScan word [] i skip = []"
| "literalScan word (c # cs) i skip =
     (if skip > 0 then literalScan word cs (i + 1) (skip - 1)
      else if toLowerCase (take (length word) (c # cs)) = toLowerCase word
      then (i, take (length word) (c # cs)) # literalScan word cs (i + 1) (length word - 1)
      else literalScan word cs (i + 1) 0)"

definition literalMatcher :: matcher where
  "literalMatcher word content = Inr (literalScan word content 0 0)"

section \<open>Hybrid ranker: SearchService.combineSearchResults\<close>

text \<open>
  The fields \<^verbatim>\<open>id\<close> and \<^verbatim>\<open>metadata\<close> of a result are copied along and never read
  by the search service; the model leaves them out. \<open>highlights\<close> is \<open>None\<close> until
  \<^verbatim>\<open>search\<close> attaches them. Scores are real numbers: rounding of floating point
  arithmetic is not modelled.
\<close>

datatype search_type = Semantic | Keyword | Hybrid | DocumentSearch

record searchResult =
  documentId :: string
  title :: string
  content :: string
  relevanceScore :: real
  searchType :: search_type
  highlights :: "highlight list option"

text \<open>
  \<^verbatim>\<open>combinedResults\<close> is a JavaScript \<^verbatim>\<open>Map\<close>: an association list in insertion
  order, where setting a key that is present replaces its value in place.
\<close>

definition mergeResult ::
  "real \<Rightarrow> (string \<times> searchResult) list \<Rightarrow> searchResult \<Rightarrow> (string \<times> searchResult) list" where
  "mergeResult weight combinedResults result =
     (let key = documentId result
      in case map_of combinedResults key of
           Some existing \<Rightarrow>
             AList.update key
               (existing\<lparr>relevanceScore :=
                    max (relevanceScore existing) (relevanceScore result * weight),
                  searchType := Hybrid\<rparr>)
               combinedResults
         | None \<Rightarrow>
             AList.update key
               (result\<lparr>relevanceScore := relevanceScore result * weight\<rparr>)
               combinedResults)"

definition mergeAll ::
  "searchResult list \<Rightarrow> searchResult list \<Rightarrow> (string \<times> searchResult) list" where
  "mergeAll semanticResults keywordResults =
     foldl (mergeResult 0.6) (foldl (mergeResult 0.8) [] semanticResults) keywordResults"

definition combineSearchResults ::
  "searchResult list \<Rightarrow> searchResult list \<Rightarrow> int \<Rightarrow> searchResult list" where
  "combineSearchResults semanticResults keywordResults limit =
     slice0 (sort_key (\<lambda>r. - relevanceScore r)
               (map snd (mergeAll semanticResults keywordResults))) limit"

section \<open>Search service state\<close>

type_synonym vector = "real list"

text \<open>
  \<open>faiss\<close> is the state of an \<^verbatim>\<open>IndexFlatL2(d)\<close>: its dimension and the vectors
  added so far, \<^verbatim>\<open>ntotal\<close> being their number. \<^verbatim>\<open>add\<close> rejects a vector of
  another dimension.
\<close>

record faiss =
  f_d :: nat
  f_vectors :: "vector list"

definition ntotal :: "faiss \<Rightarrow> int" where
  "ntotal ix = int (length (f_vectors ix))"

definition faissAdd :: "faiss \<Rightarrow> vector \<Rightarrow> error + faiss" where
  "faissAdd ix v =
     (if length v = f_d ix then Inr (ix\<lparr>f_vectors := f_vectors ix @ [v]\<rparr>)
      else Inl LibraryError)"

text \<open>A document as the database returns it; an embedding is kept as its vector.\<close>

record mongoDocument =
  m_id :: string
  m_title :: string
  extractedText :: string
  ocrText :: string
  m_summary :: string
  m_embeddings :: "vector list"
  m_status :: string

record indexedDocument =
  d_id :: string
  d_title :: string
  d_content :: string
  d_summary :: string

text \<open>
  The keyword index is the list of \<^verbatim>\<open>addDocument(text, docId)\<close> calls it has
  received; \<open>None\<close> is the \<^verbatim>\<open>null\<close> of a service that has not been initialised.
\<close>

record searchService =
  faissIndex :: "faiss option"
  bm25Index :: "(string \<times> string) list option"
  documents :: "(string \<times> indexedDocument) list"
  embeddings :: "vector list"
  documentIds :: "string list"
  initialized :: bool

definition newSearchService :: searchService where
  "newSearchService =
     \<lparr>faissIndex = None, bm25Index = None, documents = [], embeddings = [],
      documentIds = [], initialized = False\<rparr>"

fun addEmbeddings ::
  "string \<Rightarrow> vector list \<Rightarrow> searchService \<Rightarrow> searchService \<times> error option" where
  "addEmbeddings docId [] s = (s, None)"
| "addEmbeddings docId (v # vs) s =
     (if length v > 0 then
        (case faissIndex s of
           None \<Rightarrow> (s, Some TypeError)
         | Some ix \<Rightarrow>
             (case faissAdd ix v of
                Inl e \<Rightarrow> (s, Some e)
              | Inr ix' \<Rightarrow>
                  addEmbeddings docId vs
                    (s\<lparr>faissIndex := Some ix',
                       embeddings := embeddings s @ [v],
                       documentIds := documentIds s @ [docId]\<rparr>)))
      else addEmbeddings docId vs s)"

text \<open>
  The body of \<^verbatim>\<open>addDocumentToIndex\<close> runs inside one \<^verbatim>\<open>try\<close>: an exception ends it
  and leaves the updates made before in place.
\<close>

definition addDocumentToIndex :: "searchService \<Rightarrow> mongoDocument \<Rightarrow> searchService" where
  "addDocumentToIndex s document =
     (let docId = m_id document;
          fullText = trim (extractedText document @ '' '' @ ocrText document);
          s1 = s\<lparr>documents :=
                  AList.update docId
                    \<lparr>d_id = docId, d_title = m_title document, d_content = fullText,
                     d_summary = m_summary document\<rparr>
                    (documents s)\<rparr>;
          r = addEmbeddings docId (m_embeddings document) s1
      in case snd r of
           Some e \<Rightarrow> fst r
         | None \<Rightarrow>
             (case bm25Index (fst r) of
                None \<Rightarrow> fst r
              | Some entries \<Rightarrow> (fst r)\<lparr>bm25Index := Some (entries @ [(fullText, docId)])\<rparr>))"

text \<open>
  \<^verbatim>\<open>initialize\<close> creates both indexes and loads the documents the database query
  returned; \<^verbatim>\<open>loadDocuments\<close> catches the failure of that query.
\<close>

definition loadDocuments :: "searchService \<Rightarrow> error + mongoDocument list \<Rightarrow> searchService" where
  "loadDocuments s found =
     (case found of
        Inl e \<Rightarrow> s
      | Inr docs \<Rightarrow>
          foldl (\<lambda>s doc. if length (m_embeddings doc) > 0 then addDocumentToIndex s doc else s)
            s docs)"

definition initialize :: "searchService \<Rightarrow> error + mongoDocument list \<Rightarrow> searchService" where
  "initialize s found =
     (loadDocuments
        (s\<lparr>faissIndex := Some \<lparr>f_d = 1536, f_vectors = []\<rparr>, bm25Index := Some []\<rparr>)
        found)
     \<lparr>initialized := True\<rparr>"

definition removeDocumentFromIndex :: "searchService \<Rightarrow> string \<Rightarrow> searchService" where
  "removeDocumentFromIndex s document_id =
     (let s' = s\<lparr>documents := AList.delete document_id (documents s)\<rparr>;
          indicesToRemove =
            filter (\<lambda>index. documentIds s' ! index = document_id)
              [0..<length (documentIds s')]
      in s')"

record indexStats =
  totalDocuments :: nat
  totalEmbeddings :: int
  st_initialized :: bool

definition getIndexStats :: "searchService \<Rightarrow> indexStats" where
  "getIndexStats s =
     \<lparr>totalDocuments = length (documents s),
      totalEmbeddings = (case faissIndex s of Some ix \<Rightarrow> ntotal ix | None \<Rightarrow> 0),
      st_initialized = initialized s\<rparr>"

section \<open>Search\<close>

text \<open>
  What the service calls outside the repository: the random vector that
  \<^verbatim>\<open>generateQueryEmbedding\<close> draws for this call, the search of the vector index
  (pairs of distance and label), the search of the keyword index (pairs of document id
  and score), the regular expression engine and the database lookup. Each of the last
  four may throw.
\<close>

record externals =
  queryEmbedding :: vector
  faissSearch :: "faiss \<Rightarrow> vector \<Rightarrow> int \<Rightarrow> error + (real \<times> int) list"
  bm25Search :: "(string \<times> string) list \<Rightarrow> string \<Rightarrow> int \<Rightarrow> error + (string \<times> real) list"
  regexMatchAll :: matcher
  findById :: "string \<Rightarrow> error + mongoDocument option"

text \<open>\<^verbatim>\<open>this.documentIds[label]\<close> is \<^verbatim>\<open>undefined\<close> outside the array.\<close>

definition documentIdAt :: "searchService \<Rightarrow> int \<Rightarrow> string option" where
  "documentIdAt s label =
     (if 0 \<le> label \<and> label < int (length (documentIds s))
      then Some (documentIds s ! nat label) else None)"

definition semanticHit :: "searchService \<Rightarrow> real \<times> int \<Rightarrow> searchResult option" where
  "semanticHit s hit =
     (case documentIdAt s (snd hit) of
        None \<Rightarrow> None
      | Some docId \<Rightarrow>
          (case map_of (documents s) docId of
             None \<Rightarrow> None
           | Some document \<Rightarrow>
               Some \<lparr>documentId = docId, title = d_title document,
                     content = d_content document,
                     relevanceScore = 1 - fst hit / 2,
                     searchType = Semantic, highlights = None\<rparr>))"

definition semanticSearch_try ::
  "externals \<Rightarrow> searchService \<Rightarrow> string \<Rightarrow> int \<Rightarrow> error + searchResult list" where
  "semanticSearch_try X s query limit =
     (case faissIndex s of
        None \<Rightarrow> Inl TypeError
      | Some ix \<Rightarrow>
          if ntotal ix = 0 then Inr []
          else (case faissSearch X ix (queryEmbedding X) (min (limit * 2) (ntotal ix)) of
                  Inl e \<Rightarrow> Inl e
                | Inr hits \<Rightarrow> Inr (List.map_filter (semanticHit s) hits)))"

definition semanticSearch ::
  "externals \<Rightarrow> searchService \<Rightarrow> string \<Rightarrow> int \<Rightarrow> error + searchResult list" where
  "semanticSearch X s query limit =
     tryCatch (semanticSearch_try X s query limit) (\<lambda>error. Inr [])"

definition keywordHit :: "searchService \<Rightarrow> string \<times> real \<Rightarrow> searchResult option" where
  "keywordHit s result =
     (let docId = fst result
      in case map_of (documents s) docId of
           Some document \<Rightarrow>
             Some \<lparr>documentId = docId, title = d_title document,
                   content = d_content document, relevanceScore = snd result,
                   searchType = Keyword, highlights = None\<rparr>
         | None \<Rightarrow> None)"

definition keywordSearch_try ::
  "externals \<Rightarrow> searchService \<Rightarrow> string \<Rightarrow> int \<Rightarrow> error + searchResult list" where
  "keywordSearch_try X s query limit =
     (case bm25Index s of
        None \<Rightarrow> Inr []
      | Some entries \<Rightarrow>
          (case bm25Search X entries query limit of
             Inl e \<Rightarrow> Inl e
           | Inr results \<Rightarrow> Inr (List.map_filter (keywordHit s) results)))"

definition keywordSearch ::
  "externals \<Rightarrow> searchService \<Rightarrow> string \<Rightarrow> int \<Rightarrow> error + searchResult list" where
  "keywordSearch X s query limit =
     tryCatch (keywordSearch_try X s query limit) (\<lambda>error. Inr [])"

text \<open>
  An options object; \<open>None\<close> is a property left out, which takes the default of the
  destructuring pattern of \<^verbatim>\<open>search\<close> (\<open>limitOf\<close>, \<open>thresholdOf\<close>,
  \<open>useHybridOf\<close>, \<open>includeHighlightsOf\<close>).
\<close>

record searchOptions =
  o_limit :: "int option"
  o_threshold :: "real option"
  o_useHybrid :: "bool option"
  o_includeHighlights :: "bool option"

definition noOptions :: searchOptions where
  "noOptions =
     \<lparr>o_limit = None, o_threshold = None, o_useHybrid = None, o_includeHighlights = None\<rparr>"

text \<open>
  The \<^verbatim>\<open>options\<close> argument of \<^verbatim>\<open>search\<close> and \<^verbatim>\<open>searchByDocument\<close> as the caller
  passes it: left out, \<^verbatim>\<open>null\<close>, or an object. The default parameter
  \<^verbatim>\<open>options = {}\<close> replaces an argument left out by the empty object \<open>noOptions\<close>; it
  does not replace \<^verbatim>\<open>null\<close>, and reading a property of \<^verbatim>\<open>null\<close> throws a
  \<^verbatim>\<open>TypeError\<close>.
\<close>

datatype optionsArg = Omitted | Null | Given searchOptions

definition bindOptions :: "optionsArg \<Rightarrow> error + searchOptions" where
  "bindOptions arg =
     (case arg of
        Omitted \<Rightarrow> Inr noOptions
      | Null \<Rightarrow> Inl TypeError
      | Given options \<Rightarrow> Inr options)"

fun addHighlights :: "matcher \<Rightarrow> string \<Rightarrow> searchResult list \<Rightarrow> error + searchResult list" where
  "addHighlights re query [] = Inr []"
| "addHighlights re query (result # rs) =
     (case generateHighlights re (content result) query of
        Inl e \<Rightarrow> Inl e
      | Inr hs \<Rightarrow>
          (case addHighlights re query rs of
             Inl e \<Rightarrow> Inl e
           | Inr rs' \<Rightarrow> Inr (result\<lparr>highlights := Some hs\<rparr> # rs')))"

definition candidates ::
  "externals \<Rightarrow> searchService \<Rightarrow> string \<Rightarrow> int \<Rightarrow> bool \<Rightarrow> error + searchResult list" where
  "candidates X s query limit useHybrid =
     (if useHybrid then
        (case semanticSearch X s query (limit * 2) of
           Inl e \<Rightarrow> Inl e
         | Inr semanticResults \<Rightarrow>
             (case keywordSearch X s query (limit * 2) of
                Inl e \<Rightarrow> Inl e
              | Inr keywordResults \<Rightarrow>
                  Inr (combineSearchResults semanticResults keywordResults limit)))
      else semanticSearch X s query limit)"

definition limitOf :: "searchOptions \<Rightarrow> int" where
  "limitOf options = (case o_limit options of None \<Rightarrow> 10 | Some l \<Rightarrow> l)"

definition thresholdOf :: "searchOptions \<Rightarrow> real" where
  "thresholdOf options = (case o_threshold options of None \<Rightarrow> 0.7 | Some t \<Rightarrow> t)"

definition useHybridOf :: "searchOptions \<Rightarrow> bool" where
  "useHybridOf options = (case o_useHybrid options of None \<Rightarrow> True | Some b \<Rightarrow> b)"

definition includeHighlightsOf :: "searchOptions \<Rightarrow> bool" where
  "includeHighlightsOf options =
     (case o_includeHighlights options of None \<Rightarrow> True | Some b \<Rightarrow> b)"

definition search_try ::
  "externals \<Rightarrow> searchService \<Rightarrow> string \<Rightarrow> searchOptions \<Rightarrow> error + searchResult list" where
  "search_try X s query options =
     (let limit = limitOf options;
          threshold = thresholdOf options;
          useHybrid = useHybridOf options;
          includeHighlights = includeHighlightsOf options
      in case candidates X s query limit useHybrid of
           Inl e \<Rightarrow> Inl e
         | Inr results \<Rightarrow>
             (let filtered = filter (\<lambda>result. relevanceScore result \<ge> threshold) results
              in case (if includeHighlights
                       then addHighlights (regexMatchAll X) query filtered
                       else Inr filtered) of
                   Inl e \<Rightarrow> Inl e
                 | Inr highlighted \<Rightarrow> Inr (slice0 highlighted limit)))"

text \<open>
  \<^verbatim>\<open>search\<close> destructures \<^verbatim>\<open>options\<close> in front of its \<^verbatim>\<open>try\<close> block: the
  \<^verbatim>\<open>TypeError\<close> of \<^verbatim>\<open>null\<close> leaves the method, every exception of the block is
  caught. (The defaults \<open>limitOf\<close> to \<open>includeHighlightsOf\<close> are read in
  \<open>search_try\<close>; reading them from an object cannot throw.)
\<close>

definition search ::
  "externals \<Rightarrow> searchService \<Rightarrow> string \<Rightarrow> optionsArg \<Rightarrow> error + searchResult list" where
  "search X s query arg =
     (case bindOptions arg of
        Inl e \<Rightarrow> Inl e
      | Inr options \<Rightarrow> tryCatch (search_try X s query options) (\<lambda>error. Inr []))"

subsection \<open>searchByDocument\<close>

definition is_terminator :: "char \<Rightarrow> bool" where
  "is_terminator c = (c \<in> {CHR ''.'', CHR ''!'', CHR ''?''})"

definition str_includes :: "string \<Rightarrow> string \<Rightarrow> bool" where
  "str_includes s w = list_ex (\<lambda>i. take (length w) (drop i s) = w) [0..<Suc (length s)]"

definition sentenceHit ::
  "string \<Rightarrow> mongoDocument \<Rightarrow> string list \<Rightarrow> string \<Rightarrow> searchResult option" where
  "sentenceHit document_id document queryWords sentence =
     (let sentenceLower = toLowerCase sentence;
          matches = filter (\<lambda>word. length word > 2 \<and> str_includes sentenceLower word) queryWords
      in if length matches > 0
         then Some \<lparr>documentId = document_id, title = m_title document,
                    content = trim sentence,
                    relevanceScore = real (length matches) / real (length queryWords),
                    searchType = DocumentSearch, highlights = None\<rparr>
         else None)"

text \<open>
  \<^verbatim>\<open>searchByDocument\<close> reads \<^verbatim>\<open>options.limit\<close> inside its \<^verbatim>\<open>try\<close> block, when it
  cuts the sorted results; \<^verbatim>\<open>options.limit || 10\<close> takes 10 for a limit left out and
  for the limit 0.
\<close>

definition searchByDocument_try ::
  "externals \<Rightarrow> string \<Rightarrow> string \<Rightarrow> optionsArg \<Rightarrow> error + searchResult list" where
  "searchByDocument_try X document_id query arg =
     (case findById X document_id of
        Inl e \<Rightarrow> Inl e
      | Inr None \<Rightarrow> Inr []
      | Inr (Some document) \<Rightarrow>
          (let fullText = trim (extractedText document @ '' '' @ ocrText document);
               queryWords = split_on is_space (toLowerCase query);
               sentences = filter (\<lambda>s. length (trim s) > 0) (split_on is_terminator fullText);
               results = List.map_filter (sentenceHit document_id document queryWords) sentences
           in case bindOptions arg of
                Inl e \<Rightarrow> Inl e
              | Inr options \<Rightarrow>
                  Inr (slice0 (sort_key (\<lambda>r. - relevanceScore r) results)
                         (case o_limit options of
                            None \<Rightarrow> 10
                          | Some l \<Rightarrow> if l = 0 then 10 else l))))"

definition searchByDocument ::
  "externals \<Rightarrow> string \<Rightarrow> string \<Rightarrow> optionsArg \<Rightarrow> error + searchResult list" where
  "searchByDocument X document_id query arg =
     tryCatch (searchByDocument_try X document_id query arg) (\<lambda>error. Inr [])"

subsection \<open>getSimilarDocuments\<close>

record similarDocument =
  sd_id :: string
  sd_title :: string
  sd_content :: string
  sd_relevanceScore :: real

definition similarHit :: "searchService \<Rightarrow> string \<Rightarrow> real \<times> int \<Rightarrow> similarDocument option" where
  "similarHit s document_id hit =
     (case documentIdAt s (snd hit) of
        None \<Rightarrow> None
      | Some similarDocId \<Rightarrow>
          if similarDocId = document_id then None
          else (case map_of (documents s) similarDocId of
                  None \<Rightarrow> None
                | Some similarDoc \<Rightarrow>
                    Some \<lparr>sd_id = similarDocId, sd_title = d_title similarDoc,
                          sd_content = d_content similarDoc,
                          sd_relevanceScore = 1 - fst hit / 2\<rparr>))"

definition getSimilarDocuments_try ::
  "externals \<Rightarrow> searchService \<Rightarrow> string \<Rightarrow> int option \<Rightarrow> error + similarDocument list" where
  "getSimilarDocuments_try X s document_id limitArg =
     (let limit = (case limitArg of None \<Rightarrow> 5 | Some l \<Rightarrow> l)
      in case findById X document_id of
           Inl e \<Rightarrow> Inl e
         | Inr None \<Rightarrow> Inr []
         | Inr (Some document) \<Rightarrow>
             (case m_embeddings document of
                [] \<Rightarrow> Inr []
              | docEmbedding # rest \<Rightarrow>
                  (case faissIndex s of
                     None \<Rightarrow> Inl TypeError
                   | Some ix \<Rightarrow>
                       (case faissSearch X ix docEmbedding (limit + 1) of
                          Inl e \<Rightarrow> Inl e
                        | Inr hits \<Rightarrow>
                            Inr (slice0 (List.map_filter (similarHit s document_id) hits)
                                   limit)))))"

definition getSimilarDocuments ::
  "externals \<Rightarrow> searchService \<Rightarrow> string \<Rightarrow> int option \<Rightarrow> error + similarDocument list" where
  "getSimilarDocuments X s document_id limitArg =
     tryCatch (getSimilarDocuments_try X s document_id limitArg) (\<lambda>error. Inr [])"

subsection \<open>A flat index to compute with\<close>

text \<open>
  Modelled from the spec: the vector index is faiss-node's \<^verbatim>\<open>IndexFlatL2\<close>, a library
  outside the repository. Section 4.2 of the specification describes it: a flat index,
  squared Euclidean distance, the results in ascending distance, \<open>min(k, size)\<close> of
  them, and a failure for a query vector of the wrong dimension.
\<close>

definition l2sq :: "vector \<Rightarrow> vector \<Rightarrow> real" where
  "l2sq u v = sum_list (map (\<lambda>p. (fst p - snd p) * (fst p - snd p)) (zip u v))"

definition flatL2Search :: "faiss \<Rightarrow> vector \<Rightarrow> int \<Rightarrow> error + (real \<times> int) list" where
  "flatL2Search ix q k =
     (if length q \<noteq> f_d ix \<or> k < 0 then Inl LibraryError
      else Inr (take (nat k)
                  (sort_key fst
                     (zip (map (l2sq q) (f_vectors ix))
                        (map int [0..<length (f_vectors ix)])))))"

definition unitNormalized :: "vector \<Rightarrow> bool" where
  "unitNormalized v = (sum_list (map (\<lambda>x. x * x) v) = 1)"

section \<open>Example data\<close>

text \<open>
  Two unit vectors of dimension 1536 that point in opposite directions. The components
  of \<open>lowVector\<close> lie in the range of \<^verbatim>\<open>Math.random() - 0.5\<close>, so it is a vector that
  \<^verbatim>\<open>generateQueryEmbedding\<close> can draw.
\<close>

definition lowVector :: vector where
  "lowVector = replicate 4 (- 0.5) @ replicate 1532 0"

definition highVector :: vector where
  "highVector = replicate 4 0.5 @ replicate 1532 0"

definition foxDocument :: mongoDocument where
  "foxDocument =
     \<lparr>m_id = ''d1'', m_title = ''Fox'', extractedText = ''The quick brown fox.'',
      ocrText = [], m_summary = [], m_embeddings = [lowVector], m_status = ''ready''\<rparr>"

definition dogDocument :: mongoDocument where
  "dogDocument =
     \<lparr>m_id = ''d2'', m_title = ''Dog'', extractedText = ''A lazy dog.'',
      ocrText = [], m_summary = [], m_embeddings = [highVector], m_status = ''ready''\<rparr>"

definition exampleService :: searchService where
  "exampleService = initialize newSearchService (Inr [foxDocument, dogDocument])"

text \<open>
  The surroundings of the examples: the query embedding drawn is \<open>lowVector\<close>, the
  vector index is the flat index, the keyword index finds nothing, the regular
  expression engine matches a word of letters literally and rejects the word
  \<^verbatim>\<open>fox(\<close>, whose pattern \<^verbatim>\<open>(fox()\<close> has an unterminated group, and the database knows
  the two documents and rejects the malformed id \<^verbatim>\<open>not-an-id\<close>.
\<close>

definition exampleMatcher :: matcher where
  "exampleMatcher word c =
     (if word = ''fox('' then Inl SyntaxError else literalMatcher word c)"

definition exampleFindById :: "string \<Rightarrow> error + mongoDocument option" where
  "exampleFindById i =
     (if i = ''d1'' then Inr (Some foxDocument)
      else if i = ''d2'' then Inr (Some dogDocument)
      else if i = ''not-an-id'' then Inl DatabaseError
      else Inr None)"

definition exampleExternals :: externals where
  "exampleExternals =
     \<lparr>queryEmbedding = lowVector, faissSearch = flatL2Search,
      bm25Search = (\<lambda>entries query limit. Inr []),
      regexMatchAll = exampleMatcher, findById = exampleFindById\<rparr>"

section \<open>Vocabulary of the proofs\<close>

text \<open>Highlight \<open>a\<close> starts no later than \<open>b\<close> and ends before \<open>b\<close> starts.\<close>

definition separated :: "highlight \<Rightarrow> highlight \<Rightarrow> bool" where
  "separated a b = (startIndex a \<le> startIndex b \<and> endIndex a \<le> startIndex b)"

text \<open>
  The weighted scores of the occurrences of document \<open>d\<close> in the two result lists, and
  the way one more occurrence changes the score and the type kept for a document.
\<close>

definition weightedScores :: "string \<Rightarrow> searchResult list \<Rightarrow> searchResult list \<Rightarrow> real list" where
  "weightedScores d semanticResults keywordResults =
     map (\<lambda>r. relevanceScore r * 0.8) (filter (\<lambda>r. documentId r = d) semanticResults) @
     map (\<lambda>r. relevanceScore r * 0.6) (filter (\<lambda>r. documentId r = d) keywordResults)"

definition accScore :: "real option \<Rightarrow> real \<Rightarrow> real option" where
  "accScore acc x = Some (case acc of None \<Rightarrow> x | Some a \<Rightarrow> max a x)"

definition accType :: "search_type option \<Rightarrow> search_type \<Rightarrow> search_type option" where
  "accType acc t = Some (case acc of None \<Rightarrow> t | Some a \<Rightarrow> Hybrid)"

section \<open>Properties of the chunker\<close>

lemma splitLoop_length:
  "0 \<le> i \<Longrightarrow> length (splitLoop cs ov t i) \<le> nat (int (length t) - i)"
proof (induction cs ov t i rule: splitLoop.induct)
  case (1 cs ov t i)
  show ?case
  proof (cases "i < int (length t)")
    case False
    then show ?thesis by (simp add: splitLoop.simps)
  next
    case True
    let ?e = "chunkEndOf cs t i"
    let ?n = "max (?e - ov) (i + 1)"
    have ih: "length (splitLoop cs ov t ?n) \<le> nat (int (length t) - ?n)"
      using "1.IH" [OF True refl refl] "1.prems" by simp
    have step: "nat (int (length t) - ?n) < nat (int (length t) - i)"
      using True by simp
    have "length (splitLoop cs ov t i) \<le> Suc (length (splitLoop cs ov t ?n))"
      using True by (subst splitLoop.simps) (simp add: Let_def)
    with ih step show ?thesis by linarith
  qed
qed

lemma splitIntoChunks_empty: "splitIntoChunks chunkSize chunkOverlap [] = []"
  by (simp add: splitIntoChunks_def splitLoop.simps)

lemma lastIndexDown_le: "lastIndexDown s pat i \<le> int i"
proof (induction s pat i rule: lastIndexDown.induct)
  case (1 s pat i)
  then show ?case by (subst lastIndexDown.simps) auto
qed

lemma lastIndexOf_le: "0 \<le> from \<Longrightarrow> lastIndexOf s pat from \<le> from"
  using lastIndexDown_le [of s pat "min (nat (max from 0)) (length s - length pat)"]
  by (auto simp: lastIndexOf_def)

lemma trim_id:
  assumes ne: "s \<noteq> []" and h: "\<not> is_space (hd s)" and l: "\<not> is_space (last s)"
  shows "trim s = s"
proof -
  have keep: "dropWhile is_space xs = xs" if "xs \<noteq> []" "\<not> is_space (hd xs)" for xs
    using that by (cases xs) auto
  have front: "dropWhile is_space s = s" using ne h by (rule keep)
  have "hd (rev s) = last s" using ne by (simp add: hd_rev)
  then have rear: "dropWhile is_space (rev s) = rev s" using ne l by (intro keep) auto
  show ?thesis by (simp add: trim_def front rear)
qed

text \<open>
  A full stop right behind a window: \<open>lastIndexOf\<close> starts looking at \<open>endIndex\<close>
  itself, finds the stop there, and the chunk is cut one character behind the window.
\<close>

lemma chunkEnd_dot:
  assumes "0 < n"
  shows "chunkEndOf (int n) (replicate n CHR ''a'' @ ''.'') 0 = int n + 1"
proof -
  let ?t = "replicate n CHR ''a'' @ ''.''"
  have "lastIndexDown ?t ''.'' n = int n"
    by (subst lastIndexDown.simps) simp
  then have dot: "lastIndexOf ?t ''.'' (int n) = int n"
    by (simp add: lastIndexOf_def)
  have par: "lastIndexOf ?t [CHR 0x0A, CHR 0x0A] (int n) \<le> int n"
    by (rule lastIndexOf_le) simp
  show ?thesis
    using dot par assms by (simp add: chunkEndOf_def Let_def max_def)
qed

lemma first_chunk_dot:
  assumes "0 < n"
  shows "splitIntoChunks (int n) ov (replicate n CHR ''a'' @ ''.'')
         = \<lparr>c_text = replicate n CHR ''a'' @ ''.'', c_startIndex = 0, c_endIndex = int n + 1\<rparr>
           # splitLoop (int n) ov (replicate n CHR ''a'' @ ''.'') (max (int n + 1 - ov) 1)"
proof -
  let ?t = "replicate n CHR ''a'' @ ''.''"
  have sub: "substring ?t 0 (int n + 1) = ?t"
    by (simp add: substring_def Let_def)
  have "hd ?t = CHR ''a''" using assms by (cases n) auto
  then have "trim ?t = ?t"
    by (intro trim_id) (auto simp: is_space_def)
  then show ?thesis
    using chunkEnd_dot [OF assms] sub
    by (subst splitIntoChunks_def, subst splitLoop.simps) (simp add: Let_def)
qed

text \<open>
  Claim C5. A non-empty text shorter than \<open>chunkSize\<close> should give exactly one chunk.
  With the service's settings (chunk size 1000, overlap 200) the two-character text
  \<open>ab\<close> gives two chunks: after the chunk \<open>[0, 2)\<close> the loop does not stop at the end
  of the text but moves the start to \<open>max (2 - 200) (0 + 1) = 1\<close> and emits \<open>[1, 2)\<close>.
\<close>

theorem splitIntoChunks_short_text_two_chunks:
  "length ''ab'' < (1000::nat) \<and>
   splitIntoChunks 1000 200 ''ab'' =
     [\<lparr>c_text = ''ab'', c_startIndex = 0, c_endIndex = 2\<rparr>,
      \<lparr>c_text = ''b'', c_startIndex = 1, c_endIndex = 2\<rparr>]"
  by (simp add: splitIntoChunks_def splitLoop.simps chunkEndOf_def trim_def substring_def
      is_space_def)

text \<open>
  Claim C6. For every chunk size of at least 1 and every overlap of at least 0, also an
  overlap that is not smaller than the chunk size, \<open>splitIntoChunks\<close> returns (the loop
  is a total function: its start index grows by at least one in every round) and
  the number of chunks is at most the length of the text.
\<close>

theorem splitIntoChunks_at_most_N:
  "1 \<le> chunkSize \<Longrightarrow> 0 \<le> chunkOverlap \<Longrightarrow>
   length (splitIntoChunks chunkSize chunkOverlap t) \<le> length t"
  using splitLoop_length [of 0 chunkSize chunkOverlap t] by (simp add: splitIntoChunks_def)

theorem splitIntoChunks_at_most_N_witness:
  "(1::int) \<le> 2 \<and> (0::int) \<le> 5 \<and> length (splitIntoChunks 2 5 ''abc'') \<le> length ''abc''"
  using splitIntoChunks_at_most_N [of 2 5 "''abc''"] by simp

text \<open>
  Claim C7. Every chunk should be at most \<open>chunkSize\<close> characters long. With chunk size
  1000 and overlap 200, the text of 1000 letters \<open>a\<close> followed by a full stop gives a
  first chunk of 1001 characters.
\<close>

theorem splitIntoChunks_chunk_longer_than_chunkSize:
  "splitIntoChunks 1000 200 (replicate 1000 CHR ''a'' @ ''.'') =
     \<lparr>c_text = replicate 1000 CHR ''a'' @ ''.'', c_startIndex = 0, c_endIndex = 1001\<rparr>
     # splitLoop 1000 200 (replicate 1000 CHR ''a'' @ ''.'') 801 \<and>
   length (replicate 1000 CHR ''a'' @ ''.'') = 1001"
  using first_chunk_dot [of 1000 200] by simp

section \<open>Properties of the highlighter\<close>

lemma removeOverlaps_separated:
  "sorted_wrt separated acc \<Longrightarrow>
   \<forall>a\<in>set acc. \<forall>h\<in>set hs. startIndex a \<le> startIndex h \<Longrightarrow>
   sorted (map startIndex hs) \<Longrightarrow>
   sorted_wrt separated (removeOverlaps acc hs)"
proof (induction hs arbitrary: acc)
  case Nil
  then show ?case by simp
next
  case (Cons h hs)
  show ?case
  proof (cases "hasOverlap acc h")
    case True
    then show ?thesis using Cons by simp
  next
    case False
    have sep: "separated a h" if "a \<in> set acc" for a
    proof -
      have "startIndex a \<le> startIndex h" using Cons.prems(2) that by simp
      moreover have "\<not> (startIndex h \<ge> startIndex a \<and> startIndex h < endIndex a)"
        using False that by (auto simp: hasOverlap_def list_ex_iff)
      ultimately show ?thesis by (simp add: separated_def)
    qed
    have 1: "sorted_wrt separated (acc @ [h])"
      using Cons.prems(1) sep by (simp add: sorted_wrt_append)
    have 2: "\<forall>a\<in>set (acc @ [h]). \<forall>h'\<in>set hs. startIndex a \<le> startIndex h'"
      using Cons.prems(2,3) by auto
    have 3: "sorted (map startIndex hs)" using Cons.prems(3) by simp
    show ?thesis using False Cons.IH [OF 1 2 3] by simp
  qed
qed

lemma collectHighlights_Inl:
  "collectHighlights re c ws = Inl e \<Longrightarrow> \<exists>word\<in>set ws. length word > 2 \<and> re word c = Inl e"
  by (induction ws) (auto split: if_splits sum.splits)

lemma generateHighlights_separated:
  assumes "generateHighlights re c query = Inr hs"
  shows "length hs \<le> 10 \<and> sorted_wrt separated hs"
proof -
  from assms obtain highlights where
    hs: "hs = take 10 (removeOverlaps [] (sort_key startIndex highlights))"
    by (auto simp: generateHighlights_def Let_def split: sum.splits)
  have "sorted_wrt separated (removeOverlaps [] (sort_key startIndex highlights))"
    by (rule removeOverlaps_separated) simp_all
  then show ?thesis unfolding hs by (simp add: sorted_wrt_take)
qed

text \<open>
  Claim C9. For every content and every query, \<open>generateHighlights\<close> returns at most 10
  highlights, in ascending order of \<open>startIndex\<close>, and no two of them have intersecting
  ranges \<open>[startIndex, endIndex)\<close>. This holds for whatever the regular expression
  engine reports as matches; the only way not to return a list is the engine's own
  exception for one of the query words longer than two characters.
\<close>

theorem generateHighlights_at_most_10_sorted_disjoint:
  "case generateHighlights re c query of
     Inl e \<Rightarrow> (\<exists>word\<in>set (split_on is_space (toLowerCase query)).
                  length word > 2 \<and> re word c = Inl e)
   | Inr hs \<Rightarrow>
       length hs \<le> 10 \<and> sorted (map startIndex hs) \<and>
       (\<forall>i j. i < j \<and> j < length hs \<longrightarrow>
          {startIndex (hs ! i)..<endIndex (hs ! i)} \<inter>
          {startIndex (hs ! j)..<endIndex (hs ! j)} = {})"
proof (cases "generateHighlights re c query")
  case (Inl e)
  then have "collectHighlights re c (split_on is_space (toLowerCase query)) = Inl e"
    by (auto simp: generateHighlights_def Let_def split: sum.splits)
  from collectHighlights_Inl [OF this] show ?thesis using Inl by simp
next
  case (Inr hs)
  from generateHighlights_separated [OF Inr]
  have len: "length hs \<le> 10" and sep: "sorted_wrt separated hs" by auto
  have "sorted_wrt (\<lambda>a b. startIndex a \<le> startIndex b) hs"
    using sep by (rule sorted_wrt_mono_rel [rotated]) (simp add: separated_def)
  then have srt: "sorted (map startIndex hs)" by (simp add: sorted_map)
  have dis: "{startIndex (hs ! i)..<endIndex (hs ! i)} \<inter>
             {startIndex (hs ! j)..<endIndex (hs ! j)} = {}"
    if "i < j" "j < length hs" for i j
  proof -
    have "separated (hs ! i) (hs ! j)"
      using sep that by (simp add: sorted_wrt_iff_nth_less)
    then show ?thesis by (auto simp: separated_def)
  qed
  have "length hs \<le> 10 \<and> sorted (map startIndex hs) \<and>
       (\<forall>i j. i < j \<and> j < length hs \<longrightarrow>
          {startIndex (hs ! i)..<endIndex (hs ! i)} \<inter>
          {startIndex (hs ! j)..<endIndex (hs ! j)} = {})"
    using len srt dis by blast
  then show ?thesis unfolding Inr sum.case .
qed

text \<open>
  The words \<open>fox\<close> and \<open>foxes\<close> both match at position 0 of the content; the longer
  match overlaps the shorter one, which came first, and is dropped.
\<close>

theorem generateHighlights_at_most_10_sorted_disjoint_witness:
  "generateHighlights literalMatcher ''Foxes fox'' ''fox foxes'' =
     Inr [\<lparr>h_text = ''Fox'', startIndex = 0, endIndex = 3, h_type = ''keyword''\<rparr>,
          \<lparr>h_text = ''fox'', startIndex = 6, endIndex = 9, h_type = ''keyword''\<rparr>] \<and>
   {0..<3} \<inter> {6..<9::nat} = {}"
proof -
  have ev: "generateHighlights literalMatcher ''Foxes fox'' ''fox foxes'' =
     Inr [\<lparr>h_text = ''Fox'', startIndex = 0, endIndex = 3, h_type = ''keyword''\<rparr>,
          \<lparr>h_text = ''fox'', startIndex = 6, endIndex = 9, h_type = ''keyword''\<rparr>]"
    by (simp add: generateHighlights_def split_on.simps toLowerCase_def lower_char_def
        is_space_def literalMatcher_def toHighlight_def hasOverlap_def Let_def char_of_eq_iff)
  show ?thesis
    using generateHighlights_at_most_10_sorted_disjoint
      [where re = literalMatcher and c = "''Foxes fox''" and query = "''fox foxes''"] ev
    by simp
qed

section \<open>Properties of the hybrid ranker\<close>

text \<open>
  What the merge keeps for a document \<open>d\<close>: the greatest of the weighted scores of its
  occurrences, and the type of its single occurrence or \<open>Hybrid\<close> as soon as it occurs
  twice, in whichever of the two lists.
\<close>

lemma map_of_mergeResult:
  "map_of (mergeResult w m r) d =
     (if documentId r = d then
        Some (case map_of m d of
                None \<Rightarrow> r\<lparr>relevanceScore := relevanceScore r * w\<rparr>
              | Some existing \<Rightarrow>
                  existing\<lparr>relevanceScore :=
                      max (relevanceScore existing) (relevanceScore r * w),
                    searchType := Hybrid\<rparr>)
      else map_of m d)"
  by (cases "map_of m (documentId r)") (auto simp: mergeResult_def Let_def AList.update_conv')

lemma score_mergeResult:
  "map_option relevanceScore (map_of (mergeResult w m r) d) =
     (if documentId r = d
      then accScore (map_option relevanceScore (map_of m d)) (relevanceScore r * w)
      else map_option relevanceScore (map_of m d))"
  by (cases "map_of m d") (simp_all add: map_of_mergeResult accScore_def)

lemma type_mergeResult:
  "map_option searchType (map_of (mergeResult w m r) d) =
     (if documentId r = d
      then accType (map_option searchType (map_of m d)) (searchType r)
      else map_option searchType (map_of m d))"
  by (cases "map_of m d") (simp_all add: map_of_mergeResult accType_def)

lemma score_foldl:
  "map_option relevanceScore (map_of (foldl (mergeResult w) m rs) d) =
   foldl accScore (map_option relevanceScore (map_of m d))
     (map (\<lambda>r. relevanceScore r * w) (filter (\<lambda>r. documentId r = d) rs))"
  by (induction rs arbitrary: m) (simp_all add: score_mergeResult)

lemma type_foldl:
  "map_option searchType (map_of (foldl (mergeResult w) m rs) d) =
   foldl accType (map_option searchType (map_of m d))
     (map searchType (filter (\<lambda>r. documentId r = d) rs))"
  by (induction rs arbitrary: m) (simp_all add: type_mergeResult)

lemma foldl_accScore_Some: "foldl accScore (Some a) xs = Some (Max (insert a (set xs)))"
proof (induction xs arbitrary: a)
  case Nil
  then show ?case by simp
next
  case (Cons x xs)
  have step: "accScore (Some a) x = Some (max a x)" by (simp add: accScore_def)
  have "Max (insert (max a x) (set xs)) = Max (insert a (insert x (set xs)))"
    by (cases "set xs = {}") (simp_all add: max.assoc)
  then show ?case by (simp add: step Cons.IH)
qed

lemma foldl_accScore_None:
  "foldl accScore None xs = (if xs = [] then None else Some (Max (set xs)))"
proof (cases xs)
  case Nil
  then show ?thesis by simp
next
  case (Cons x rest)
  have "accScore None x = Some x" by (simp add: accScore_def)
  then show ?thesis by (simp add: Cons foldl_accScore_Some)
qed

lemma foldl_accType_Some: "foldl accType (Some t) ts = Some (if ts = [] then t else Hybrid)"
proof (induction ts arbitrary: t)
  case Nil
  then show ?case by simp
next
  case (Cons u us)
  have "accType (Some t) u = Some Hybrid" by (simp add: accType_def)
  then show ?case by (simp add: Cons.IH)
qed

lemma foldl_accType_None:
  "foldl accType None ts = (case ts of [] \<Rightarrow> None | [t] \<Rightarrow> Some t | t # u # us \<Rightarrow> Some Hybrid)"
proof (cases ts)
  case Nil
  then show ?thesis by simp
next
  case (Cons t rest)
  have "accType None t = Some t" by (simp add: accType_def)
  then have "foldl accType None ts = foldl accType (Some t) rest" by (simp add: Cons)
  then have "foldl accType None ts = Some (if rest = [] then t else Hybrid)"
    by (simp only: foldl_accType_Some)
  then show ?thesis by (cases rest) (simp_all add: Cons)
qed

lemma mergeAll_score_is_weighted_max:
  "map_option relevanceScore (map_of (mergeAll semanticResults keywordResults) d) =
     (if weightedScores d semanticResults keywordResults = [] then None
      else Some (Max (set (weightedScores d semanticResults keywordResults))))"
proof -
  have "map_option relevanceScore (map_of (mergeAll semanticResults keywordResults) d) =
        foldl accScore None (weightedScores d semanticResults keywordResults)"
    by (simp add: mergeAll_def score_foldl weightedScores_def)
  then show ?thesis by (simp only: foldl_accScore_None)
qed

lemma mergeAll_searchType:
  "map_option searchType (map_of (mergeAll semanticResults keywordResults) d) =
     (case map searchType (filter (\<lambda>r. documentId r = d) (semanticResults @ keywordResults)) of
        [] \<Rightarrow> None
      | [t] \<Rightarrow> Some t
      | t # u # us \<Rightarrow> Some Hybrid)"
proof -
  have "map_option searchType (map_of (mergeAll semanticResults keywordResults) d) =
        foldl accType None
          (map searchType (filter (\<lambda>r. documentId r = d) (semanticResults @ keywordResults)))"
    by (simp add: mergeAll_def type_foldl)
  then show ?thesis by (simp only: foldl_accType_None)
qed

text \<open>
  Claim C1. A document should be marked \<open>hybrid\<close> exactly when it occurs in both result
  lists. Two semantic hits of the same document (two of its chunks) and no keyword hit
  at all give one combined result whose score is the greater weighted score,
  \<open>0.9 * 0.8 = 0.72\<close>, and whose type is \<open>hybrid\<close>.
\<close>

theorem combineSearchResults_semantic_only_marked_hybrid:
  "combineSearchResults
     [\<lparr>documentId = ''d1'', title = ''T'', content = ''c'', relevanceScore = 0.9,
       searchType = Semantic, highlights = None\<rparr>,
      \<lparr>documentId = ''d1'', title = ''T'', content = ''c'', relevanceScore = 0.5,
       searchType = Semantic, highlights = None\<rparr>] [] 10
   = [\<lparr>documentId = ''d1'', title = ''T'', content = ''c'', relevanceScore = 0.72,
       searchType = Hybrid, highlights = None\<rparr>]"
  by (simp add: combineSearchResults_def mergeAll_def mergeResult_def slice0_def Let_def)

section \<open>Properties of the search service\<close>

lemma l2sq_low_low: "l2sq lowVector lowVector = 0"
  by (simp add: l2sq_def lowVector_def sum_list_replicate)

lemma l2sq_low_high: "l2sq lowVector highVector = 4"
  by (simp add: l2sq_def lowVector_def highVector_def sum_list_replicate)

lemma unit_low: "unitNormalized lowVector" and unit_high: "unitNormalized highVector"
  by (simp_all add: unitNormalized_def lowVector_def highVector_def sum_list_replicate)

lemma len_low: "length lowVector = 1536" and len_high: "length highVector = 1536"
  by (simp_all add: lowVector_def highVector_def)

lemma exampleService_eq:
  "exampleService =
     \<lparr>faissIndex = Some \<lparr>f_d = 1536, f_vectors = [lowVector, highVector]\<rparr>,
      bm25Index = Some [(''The quick brown fox.'', ''d1''), (''A lazy dog.'', ''d2'')],
      documents =
        [(''d1'', \<lparr>d_id = ''d1'', d_title = ''Fox'', d_content = ''The quick brown fox.'', d_summary = []\<rparr>),
         (''d2'', \<lparr>d_id = ''d2'', d_title = ''Dog'', d_content = ''A lazy dog.'', d_summary = []\<rparr>)],
      embeddings = [lowVector, highVector],
      documentIds = [''d1'', ''d2''],
      initialized = True\<rparr>"
  by (simp add: exampleService_def initialize_def loadDocuments_def newSearchService_def
      addDocumentToIndex_def foxDocument_def dogDocument_def faissAdd_def len_low len_high
      trim_def is_space_def Let_def)

lemma example_hits:
  "flatL2Search \<lparr>f_d = 1536, f_vectors = [lowVector, highVector]\<rparr> lowVector 2 = Inr [(0, 0), (4, 1)]"
  by (simp add: flatL2Search_def len_low l2sq_low_low l2sq_low_high)

lemma example_semantic:
  "0 < limit \<Longrightarrow> semanticSearch exampleExternals exampleService q limit =
     Inr [\<lparr>documentId = ''d1'', title = ''Fox'', content = ''The quick brown fox.'',
           relevanceScore = 1, searchType = Semantic, highlights = None\<rparr>,
          \<lparr>documentId = ''d2'', title = ''Dog'', content = ''A lazy dog.'',
           relevanceScore = - 1, searchType = Semantic, highlights = None\<rparr>]"
proof -
  assume "0 < limit"
  then have k: "min (limit * 2) 2 = 2" by simp
  show ?thesis
    by (simp add: semanticSearch_def semanticSearch_try_def tryCatch_def exampleService_eq
        exampleExternals_def ntotal_def k example_hits semanticHit_def documentIdAt_def)
qed

text \<open>
  Claim C8. With unit-normalised vectors every result of \<open>search\<close> should have a
  relevance score in \<open>[0, 1]\<close>. The two stored vectors and the query vector are
  unit-normalised; the second document lies opposite to the query, its squared distance
  is 4, and \<open>1 - 4 / 2 = -1\<close> is the score \<open>search\<close> returns for it when the caller's
  threshold lets it through.
\<close>

theorem search_unit_vectors_negative_score:
  "unitNormalized lowVector \<and> unitNormalized highVector \<and>
   search exampleExternals exampleService ''fox''
     (Given \<lparr>o_limit = None, o_threshold = Some (- 1), o_useHybrid = Some False,
             o_includeHighlights = Some False\<rparr>) =
     Inr [\<lparr>documentId = ''d1'', title = ''Fox'', content = ''The quick brown fox.'',
           relevanceScore = 1, searchType = Semantic, highlights = None\<rparr>,
          \<lparr>documentId = ''d2'', title = ''Dog'', content = ''A lazy dog.'',
           relevanceScore = - 1, searchType = Semantic, highlights = None\<rparr>]"
  by (simp add: unit_low unit_high search_def bindOptions_def search_try_def tryCatch_def
      candidates_def example_semantic limitOf_def thresholdOf_def useHybridOf_def
      includeHighlightsOf_def slice0_def)

lemma example_regex: "regexMatchAll exampleExternals = exampleMatcher"
  by (simp add: exampleExternals_def)

lemma example_keyword: "keywordSearch exampleExternals exampleService q limit = Inr []"
  by (simp add: keywordSearch_def keywordSearch_try_def tryCatch_def exampleService_eq
      exampleExternals_def)

text \<open>
  Claim C4, as stated: an empty query should fail with an invalid-query error before any
  index is consulted. \<open>search\<close> with the empty query and no options returns the first
  document, which it can only have found in the vector index.
\<close>

theorem search_empty_query_returns_index_hit:
  "search exampleExternals exampleService '''' Omitted =
     Inr [\<lparr>documentId = ''d1'', title = ''Fox'', content = ''The quick brown fox.'',
           relevanceScore = 0.8, searchType = Semantic, highlights = Some []\<rparr>]"
  by (simp add: search_def bindOptions_def search_try_def tryCatch_def candidates_def
      example_semantic example_keyword limitOf_def thresholdOf_def useHybridOf_def includeHighlightsOf_def
      slice0_def noOptions_def combineSearchResults_def mergeAll_def mergeResult_def Let_def
      generateHighlights_def split_on.simps toLowerCase_def example_regex)

text \<open>
  Claim C2. Removing a document should purge its entries from the vector index and from
  the keyword index. After indexing one document and removing it, the vector, its
  \<open>documentIds\<close> entry and the keyword entry are all still there; only the
  \<open>documents\<close> map has lost the document, and \<open>getIndexStats\<close> still counts one
  embedding.
\<close>

theorem removeDocumentFromIndex_leaves_index_entries:
  "removeDocumentFromIndex (addDocumentToIndex (initialize newSearchService (Inr [])) foxDocument) ''d1'' =
     \<lparr>faissIndex = Some \<lparr>f_d = 1536, f_vectors = [lowVector]\<rparr>,
      bm25Index = Some [(''The quick brown fox.'', ''d1'')],
      documents = [],
      embeddings = [lowVector],
      documentIds = [''d1''],
      initialized = True\<rparr> \<and>
   totalEmbeddings (getIndexStats (removeDocumentFromIndex (addDocumentToIndex (initialize newSearchService (Inr [])) foxDocument) ''d1'')) = 1"
  by (simp add: initialize_def loadDocuments_def newSearchService_def
      addDocumentToIndex_def foxDocument_def faissAdd_def len_low removeDocumentFromIndex_def
      trim_def is_space_def Let_def AList.delete_eq getIndexStats_def ntotal_def)


lemma tryCatch_returns: "\<exists>x. tryCatch body (\<lambda>error. Inr []) = Inr x"
  by (cases body) (simp_all add: tryCatch_def)

lemma tryCatch_error: "body = Inl e \<Longrightarrow> tryCatch body (\<lambda>error. Inr []) = Inr []"
  by (simp add: tryCatch_def)

lemma tryCatch_Inr:
  "tryCatch body (\<lambda>error. Inr []) = Inr rs \<Longrightarrow> body = Inr rs \<or> rs = []"
  by (cases body) (auto simp: tryCatch_def)

lemma map_filter_mem: "y \<in> set (List.map_filter f xs) \<Longrightarrow> \<exists>x\<in>set xs. f x = Some y"
  by (induction xs) (auto split: option.splits)

lemma map_of_known: "map_of m k = Some v \<Longrightarrow> k \<in> fst ` set m"
  by (metis map_of_eq_None_iff option.distinct(1))

lemma semanticHit_known:
  "semanticHit s hit = Some r \<Longrightarrow> documentId r \<in> fst ` set (documents s)"
  unfolding semanticHit_def by (auto split: option.splits dest: map_of_known)

lemma keywordHit_known:
  "keywordHit s hit = Some r \<Longrightarrow> documentId r \<in> fst ` set (documents s)"
  unfolding keywordHit_def Let_def by (auto split: option.splits dest: map_of_known)

lemma semanticSearch_known:
  assumes "semanticSearch X s q l = Inr rs"
  shows "documentId ` set rs \<subseteq> fst ` set (documents s)"
proof -
  from tryCatch_Inr [OF assms [unfolded semanticSearch_def]]
  consider "semanticSearch_try X s q l = Inr rs" | "rs = []" by blast
  then show ?thesis
  proof cases
    case 1
    then consider "rs = []" | hits where "rs = List.map_filter (semanticHit s) hits"
      by (auto simp: semanticSearch_try_def split: option.splits if_splits sum.splits)
    then have "\<forall>r\<in>set rs. \<exists>hit. semanticHit s hit = Some r"
    proof cases
      case 1
      then show ?thesis by simp
    next
      case (2 hits)
      show ?thesis unfolding 2 using map_filter_mem [of _ "semanticHit s" hits] by blast
    qed
    then show ?thesis using semanticHit_known by blast
  next
    case 2
    then show ?thesis by simp
  qed
qed

lemma keywordSearch_known:
  assumes "keywordSearch X s q l = Inr rs"
  shows "documentId ` set rs \<subseteq> fst ` set (documents s)"
proof -
  from tryCatch_Inr [OF assms [unfolded keywordSearch_def]]
  consider "keywordSearch_try X s q l = Inr rs" | "rs = []" by blast
  then show ?thesis
  proof cases
    case 1
    then consider "rs = []" | hits where "rs = List.map_filter (keywordHit s) hits"
      by (auto simp: keywordSearch_try_def split: option.splits sum.splits)
    then have "\<forall>r\<in>set rs. \<exists>hit. keywordHit s hit = Some r"
    proof cases
      case 1
      then show ?thesis by simp
    next
      case (2 hits)
      show ?thesis unfolding 2 using map_filter_mem [of _ "keywordHit s" hits] by blast
    qed
    then show ?thesis using keywordHit_known by blast
  next
    case 2
    then show ?thesis by simp
  qed
qed

lemma update_set: "p \<in> set (AList.update k v m) \<Longrightarrow> p = (k, v) \<or> p \<in> set m"
  by (induction m) (auto split: if_splits)

lemma mergeResult_keys:
  assumes inv: "\<forall>p\<in>set m. documentId (snd p) = fst p \<and> fst p \<in> D"
    and r: "documentId r \<in> D"
  shows "\<forall>p\<in>set (mergeResult w m r). documentId (snd p) = fst p \<and> fst p \<in> D"
proof -
  obtain v where v: "mergeResult w m r = AList.update (documentId r) v m"
    and dv: "documentId v = documentId r"
  proof (cases "map_of m (documentId r)")
    case None
    show ?thesis
      by (rule that [of "r\<lparr>relevanceScore := relevanceScore r * w\<rparr>"])
        (simp_all add: mergeResult_def Let_def None)
  next
    case (Some existing)
    then have "(documentId r, existing) \<in> set m" by (rule map_of_SomeD)
    with inv have e: "documentId existing = documentId r" by fastforce
    show ?thesis
      by (rule that [of "existing\<lparr>relevanceScore :=
              max (relevanceScore existing) (relevanceScore r * w), searchType := Hybrid\<rparr>"])
        (simp_all add: mergeResult_def Let_def Some e)
  qed
  show ?thesis
  proof
    fix p
    assume "p \<in> set (mergeResult w m r)"
    then have "p = (documentId r, v) \<or> p \<in> set m" unfolding v by (rule update_set)
    then show "documentId (snd p) = fst p \<and> fst p \<in> D" using inv r dv by auto
  qed
qed

lemma foldl_mergeResult_keys:
  "\<forall>p\<in>set m. documentId (snd p) = fst p \<and> fst p \<in> D \<Longrightarrow>
   documentId ` set rs \<subseteq> D \<Longrightarrow>
   \<forall>p\<in>set (foldl (mergeResult w) m rs). documentId (snd p) = fst p \<and> fst p \<in> D"
proof (induction rs arbitrary: m)
  case Nil
  then show ?case by simp
next
  case (Cons r rs)
  have r: "documentId r \<in> D" using Cons.prems(2) by simp
  have rest: "documentId ` set rs \<subseteq> D" using Cons.prems(2) by simp
  have "\<forall>p\<in>set (mergeResult w m r). documentId (snd p) = fst p \<and> fst p \<in> D"
    using Cons.prems(1) r by (rule mergeResult_keys)
  from Cons.IH [OF this rest] show ?case by simp
qed

lemma slice0_subset: "set (slice0 xs n) \<subseteq> set xs"
  by (auto simp: slice0_def dest: in_set_takeD)

lemma combineSearchResults_known:
  "documentId ` set (combineSearchResults sem kw l) \<subseteq> documentId ` set sem \<union> documentId ` set kw"
proof -
  let ?D = "documentId ` set sem \<union> documentId ` set kw"
  have 1: "\<forall>p\<in>set (foldl (mergeResult 0.8) [] sem). documentId (snd p) = fst p \<and> fst p \<in> ?D"
    by (rule foldl_mergeResult_keys) auto
  have 2: "\<forall>p\<in>set (mergeAll sem kw). documentId (snd p) = fst p \<and> fst p \<in> ?D"
    unfolding mergeAll_def using 1 by (rule foldl_mergeResult_keys) auto
  have "documentId ` set (combineSearchResults sem kw l)
        \<subseteq> documentId ` snd ` set (mergeAll sem kw)"
    using slice0_subset [of "sort_key (\<lambda>r. - relevanceScore r) (map snd (mergeAll sem kw))" l]
    by (auto simp: combineSearchResults_def)
  also have "\<dots> \<subseteq> ?D" using 2 by force
  finally show ?thesis .
qed

lemma candidates_known:
  assumes "candidates X s q l h = Inr rs"
  shows "documentId ` set rs \<subseteq> fst ` set (documents s)"
proof (cases h)
  case False
  then show ?thesis using assms semanticSearch_known by (simp add: candidates_def)
next
  case True
  with assms obtain sem kw where
    sem: "semanticSearch X s q (l * 2) = Inr sem" and
    kw: "keywordSearch X s q (l * 2) = Inr kw" and
    rs: "rs = combineSearchResults sem kw l"
    by (auto simp: candidates_def split: sum.splits)
  have "documentId ` set sem \<union> documentId ` set kw \<subseteq> fst ` set (documents s)"
    using semanticSearch_known [OF sem] keywordSearch_known [OF kw] by (rule Un_least)
  with combineSearchResults_known [of sem kw l] show ?thesis
    unfolding rs by (rule subset_trans)
qed

lemma addHighlights_ids:
  "addHighlights re q rs = Inr rs' \<Longrightarrow> map documentId rs' = map documentId rs"
  by (induction rs arbitrary: rs') (auto split: sum.splits)

lemma search_try_unfold:
  "search_try X s q opts =
     (case candidates X s q (limitOf opts) (useHybridOf opts) of
        Inl e \<Rightarrow> Inl e
      | Inr results \<Rightarrow>
          (case (if includeHighlightsOf opts
                 then addHighlights (regexMatchAll X) q
                        (filter (\<lambda>result. relevanceScore result \<ge> thresholdOf opts) results)
                 else Inr (filter (\<lambda>result. relevanceScore result \<ge> thresholdOf opts) results)) of
             Inl e \<Rightarrow> Inl e
           | Inr highlighted \<Rightarrow> Inr (slice0 highlighted (limitOf opts))))"
  by (simp add: search_try_def Let_def cong: sum.case_cong)

lemma search_try_known:
  assumes "search_try X s q opts = Inr rs"
  shows "documentId ` set rs \<subseteq> fst ` set (documents s)"
proof (cases "candidates X s q (limitOf opts) (useHybridOf opts)")
  case (Inl e)
  then have "search_try X s q opts = Inl e" by (simp add: search_try_unfold)
  with assms show ?thesis by simp
next
  case c: (Inr results)
  define filtered where
    "filtered = filter (\<lambda>result. relevanceScore result \<ge> thresholdOf opts) results"
  define h where
    "h = (if includeHighlightsOf opts
          then addHighlights (regexMatchAll X) q filtered else Inr filtered)"
  have st: "search_try X s q opts =
            (case h of Inl e \<Rightarrow> Inl e
             | Inr highlighted \<Rightarrow> Inr (slice0 highlighted (limitOf opts)))"
    unfolding h_def filtered_def by (simp add: search_try_unfold c)
  show ?thesis
  proof (cases h)
    case (Inl e)
    then have "search_try X s q opts = Inl e" by (simp add: st)
    with assms show ?thesis by simp
  next
    case hl: (Inr highlighted)
    then have "search_try X s q opts = Inr (slice0 highlighted (limitOf opts))"
      by (simp add: st)
    with assms have rs: "rs = slice0 highlighted (limitOf opts)" by simp
    have eq: "map documentId highlighted = map documentId filtered"
    proof (cases "includeHighlightsOf opts")
      case True
      then have "addHighlights (regexMatchAll X) q filtered = Inr highlighted"
        using hl by (simp add: h_def)
      then show ?thesis by (rule addHighlights_ids)
    next
      case False
      then have "filtered = highlighted" using hl by (simp add: h_def)
      then show ?thesis by simp
    qed
    have "documentId ` set highlighted = documentId ` set filtered"
      using arg_cong [OF eq, of set] by (simp only: set_map)
    also have "\<dots> \<subseteq> documentId ` set results"
      unfolding filtered_def by (rule image_mono) simp
    also have "\<dots> \<subseteq> fst ` set (documents s)" by (rule candidates_known [OF c])
    finally have 1: "documentId ` set highlighted \<subseteq> fst ` set (documents s)" .
    have "documentId ` set rs \<subseteq> documentId ` set highlighted"
      unfolding rs by (rule image_mono) (rule slice0_subset)
    then show ?thesis using 1 by (rule subset_trans)
  qed
qed

lemma search_bound:
  "bindOptions arg = Inr opts \<Longrightarrow>
   search X s q arg = tryCatch (search_try X s q opts) (\<lambda>error. Inr [])"
  by (simp add: search_def)

lemma search_null: "search X s q Null = Inl TypeError"
  by (simp add: search_def bindOptions_def)

lemma bindOptions_cases:
  obtains "arg = Null" | opts where "bindOptions arg = Inr opts"
  by (cases arg) (simp_all add: bindOptions_def)

lemma search_known:
  assumes "search X s q arg = Inr rs"
  shows "documentId ` set rs \<subseteq> fst ` set (documents s)"
proof (cases arg rule: bindOptions_cases)
  case 1
  then show ?thesis using assms by (simp add: search_null)
next
  case (2 opts)
  from tryCatch_Inr [OF assms [unfolded search_bound [OF 2]]]
  show ?thesis
  proof
    assume "rs = []"
    then show ?thesis by simp
  next
    assume "search_try X s q opts = Inr rs"
    then show ?thesis by (rule search_try_known)
  qed
qed

lemma removeDocumentFromIndex_documents:
  "documents (removeDocumentFromIndex s d) = AList.delete d (documents s)"
  by (simp add: removeDocumentFromIndex_def Let_def)

lemma removeDocumentFromIndex_rest:
  "faissIndex (removeDocumentFromIndex s d) = faissIndex s \<and>
   bm25Index (removeDocumentFromIndex s d) = bm25Index s \<and>
   embeddings (removeDocumentFromIndex s d) = embeddings s \<and>
   documentIds (removeDocumentFromIndex s d) = documentIds s"
  by (simp add: removeDocumentFromIndex_def Let_def)

text \<open>
  Claim C3. Removing a document twice leaves the same state as removing it once, and a
  search on that state returns a list in which the document does not occur, whatever the
  query, the options, the vector index, the keyword index and the regular expression
  engine do: a hit is only turned into a result when its document id is a key of
  \<open>documents\<close>. The one call that returns no list at all is the call with \<^verbatim>\<open>null\<close>
  for the options.
\<close>

theorem removeDocumentFromIndex_idempotent_and_hidden:
  "removeDocumentFromIndex (removeDocumentFromIndex s d) d = removeDocumentFromIndex s d \<and>
   (case search X (removeDocumentFromIndex s d) query arg of
      Inl e \<Rightarrow> arg = Null
    | Inr rs \<Rightarrow> d \<notin> documentId ` set rs)"
proof
  show "removeDocumentFromIndex (removeDocumentFromIndex s d) d = removeDocumentFromIndex s d"
    by (simp add: removeDocumentFromIndex_def Let_def AList.delete_idem)
next
  show "case search X (removeDocumentFromIndex s d) query arg of
      Inl e \<Rightarrow> arg = Null
    | Inr rs \<Rightarrow> d \<notin> documentId ` set rs"
  proof (cases arg rule: bindOptions_cases)
    case 1
    then show ?thesis by (simp add: search_null)
  next
    case (2 opts)
    obtain rs where rs: "search X (removeDocumentFromIndex s d) query arg = Inr rs"
      unfolding search_bound [OF 2] using tryCatch_returns by blast
    have "d \<notin> fst ` set (documents (removeDocumentFromIndex s d))"
      by (auto simp: removeDocumentFromIndex_documents AList.delete_eq)
    with search_known [OF rs] have "d \<notin> documentId ` set rs" by blast
    then show ?thesis by (simp add: rs)
  qed
qed

lemma example_removed_eq:
  "removeDocumentFromIndex exampleService ''d1'' =
     \<lparr>faissIndex = Some \<lparr>f_d = 1536, f_vectors = [lowVector, highVector]\<rparr>,
      bm25Index = Some [(''The quick brown fox.'', ''d1''), (''A lazy dog.'', ''d2'')],
      documents =
        [(''d2'', \<lparr>d_id = ''d2'', d_title = ''Dog'', d_content = ''A lazy dog.'', d_summary = []\<rparr>)],
      embeddings = [lowVector, highVector],
      documentIds = [''d1'', ''d2''],
      initialized = True\<rparr>"
  by (simp add: exampleService_eq removeDocumentFromIndex_def Let_def AList.delete_eq)

lemma example_removed_semantic:
  "semanticSearch exampleExternals (removeDocumentFromIndex exampleService ''d1'') q 10 =
     Inr [\<lparr>documentId = ''d2'', title = ''Dog'', content = ''A lazy dog.'',
           relevanceScore = - 1, searchType = Semantic, highlights = None\<rparr>]"
  by (simp add: semanticSearch_def semanticSearch_try_def tryCatch_def example_removed_eq
      exampleExternals_def ntotal_def example_hits semanticHit_def documentIdAt_def)

lemma example_dog_highlights:
  "generateHighlights exampleMatcher ''A lazy dog.'' ''dog'' =
     Inr [\<lparr>h_text = ''dog'', startIndex = 7, endIndex = 10, h_type = ''keyword''\<rparr>]"
  by (simp add: generateHighlights_def split_on.simps toLowerCase_def lower_char_def
      is_space_def exampleMatcher_def literalMatcher_def toHighlight_def hasOverlap_def
      Let_def char_of_eq_iff)

text \<open>
  Scenario 4 of the specification: after \<open>d1\<close> is removed, a search still reaches the
  vector of \<open>d1\<close> in the index, skips it, and returns \<open>d2\<close>.
\<close>

theorem removeDocumentFromIndex_idempotent_and_hidden_witness:
  "removeDocumentFromIndex (removeDocumentFromIndex exampleService ''d1'') ''d1'' =
     removeDocumentFromIndex exampleService ''d1'' \<and>
   search exampleExternals (removeDocumentFromIndex exampleService ''d1'') ''dog''
     (Given \<lparr>o_limit = None, o_threshold = Some (- 1), o_useHybrid = Some False,
             o_includeHighlights = None\<rparr>) =
     Inr [\<lparr>documentId = ''d2'', title = ''Dog'', content = ''A lazy dog.'',
           relevanceScore = - 1, searchType = Semantic,
           highlights = Some [\<lparr>h_text = ''dog'', startIndex = 7, endIndex = 10,
                                h_type = ''keyword''\<rparr>]\<rparr>]"
proof -
  have ev: "search exampleExternals (removeDocumentFromIndex exampleService ''d1'') ''dog''
     (Given \<lparr>o_limit = None, o_threshold = Some (- 1), o_useHybrid = Some False,
             o_includeHighlights = None\<rparr>) =
     Inr [\<lparr>documentId = ''d2'', title = ''Dog'', content = ''A lazy dog.'',
           relevanceScore = - 1, searchType = Semantic,
           highlights = Some [\<lparr>h_text = ''dog'', startIndex = 7, endIndex = 10,
                                h_type = ''keyword''\<rparr>]\<rparr>]"
    by (simp add: search_def bindOptions_def search_try_def tryCatch_def candidates_def
        example_removed_semantic limitOf_def thresholdOf_def useHybridOf_def
        includeHighlightsOf_def slice0_def example_regex example_dog_highlights)
  show ?thesis
    using removeDocumentFromIndex_idempotent_and_hidden
      [where s = exampleService and d = "''d1''" and X = exampleExternals
         and query = "''dog''"
         and arg = "Given \<lparr>o_limit = None, o_threshold = Some (- 1),
                              o_useHybrid = Some False, o_includeHighlights = None\<rparr>"] ev
    by simp
qed

lemma whitespace_lower: "\<forall>c\<in>set q. is_space c \<Longrightarrow> toLowerCase q = q"
  unfolding toLowerCase_def
  by (rule map_idI) (auto simp: lower_char_def is_space_def Let_def)

lemma split_on_all_sep:
  assumes "\<forall>c\<in>set s. sep c"
  shows "\<forall>w\<in>set (split_on sep s). w = []"
proof (cases s)
  case Nil
  then show ?thesis by (simp add: split_on.simps)
next
  case (Cons c cs)
  have tw: "takeWhile (\<lambda>c. \<not> sep c) s = []" using assms Cons by simp
  have dw: "dropWhile (\<lambda>c. \<not> sep c) s = s" using assms Cons by simp
  have ds: "dropWhile sep s = []" using assms by simp
  have "split_on sep s = [] # split_on sep []"
    by (subst split_on.simps) (simp add: tw dw ds Cons [symmetric] Let_def, simp add: Cons)
  then show ?thesis by (simp add: split_on.simps)
qed

lemma collectHighlights_short:
  "\<forall>w\<in>set ws. length w \<le> 2 \<Longrightarrow> collectHighlights re c ws = Inr []"
  by (induction ws) auto

lemma generateHighlights_whitespace:
  assumes "\<forall>c\<in>set q. is_space c"
  shows "generateHighlights re c q = Inr []"
proof -
  have "\<forall>w\<in>set (split_on is_space (toLowerCase q)). length w \<le> 2"
    using split_on_all_sep [OF assms] unfolding whitespace_lower [OF assms]
    by auto
  then have "collectHighlights re c (split_on is_space (toLowerCase q)) = Inr []"
    by (rule collectHighlights_short)
  then show ?thesis by (simp add: generateHighlights_def)
qed

lemma addHighlights_whitespace:
  assumes "\<forall>c\<in>set q. is_space c"
  shows "addHighlights re q rs = Inr (map (\<lambda>r. r\<lparr>highlights := Some []\<rparr>) rs)"
  by (induction rs) (simp_all add: generateHighlights_whitespace [OF assms])

lemma candidates_returns: "\<exists>results. candidates X s q l h = Inr results"
proof -
  obtain sem where sem: "semanticSearch X s q (l * 2) = Inr sem"
    unfolding semanticSearch_def using tryCatch_returns by blast
  obtain sem' where sem': "semanticSearch X s q l = Inr sem'"
    unfolding semanticSearch_def using tryCatch_returns by blast
  obtain kw where kw: "keywordSearch X s q (l * 2) = Inr kw"
    unfolding keywordSearch_def using tryCatch_returns by blast
  show ?thesis by (cases h) (simp_all add: candidates_def sem sem' kw)
qed

text \<open>
  Claim C4, amended. For every query that is empty or consists only of whitespace,
  \<open>search\<close>, called with an options object or with none, does not fail and does not
  reject the query: it collects the candidates from the indexes as for any other query,
  keeps those that reach the threshold, attaches an empty list of highlights to each of
  them when highlights are requested, and returns the first \<open>limit\<close> of them.
\<close>

theorem search_whitespace_query_is_searched:
  assumes "\<forall>c\<in>set query. is_space c" and "bindOptions arg = Inr options"
  shows "\<exists>results.
           candidates X s query (limitOf options) (useHybridOf options) = Inr results \<and>
           search X s query arg =
             Inr (slice0
                    ((if includeHighlightsOf options
                      then map (\<lambda>r. r\<lparr>highlights := Some []\<rparr>) else id)
                       (filter (\<lambda>r. thresholdOf options \<le> relevanceScore r) results))
                    (limitOf options))"
proof -
  obtain results where
    c: "candidates X s query (limitOf options) (useHybridOf options) = Inr results"
    using candidates_returns by blast
  have "search_try X s query options =
          Inr (slice0
                 ((if includeHighlightsOf options
                   then map (\<lambda>r. r\<lparr>highlights := Some []\<rparr>) else id)
                    (filter (\<lambda>r. thresholdOf options \<le> relevanceScore r) results))
                 (limitOf options))"
    by (simp add: search_try_unfold c addHighlights_whitespace [OF assms(1)])
  then show ?thesis using c by (simp add: search_bound [OF assms(2)] tryCatch_def)
qed

text \<open>
  A query of a tab and a no-break space, and no options: the document next to the query
  vector is returned, with the score \<open>1 * 0.8\<close> and no highlight.
\<close>

theorem search_whitespace_query_is_searched_witness:
  "is_space (CHR 0x09) \<and> is_space (CHR 0xA0) \<and> bindOptions Omitted = Inr noOptions \<and>
   search exampleExternals exampleService [CHR 0x09, CHR 0xA0] Omitted =
     Inr [\<lparr>documentId = ''d1'', title = ''Fox'', content = ''The quick brown fox.'',
           relevanceScore = 0.8, searchType = Semantic, highlights = Some []\<rparr>]"
proof -
  have h: "\<forall>c\<in>set [CHR 0x09, CHR 0xA0]. is_space c" by (simp add: is_space_def)
  have b: "bindOptions Omitted = Inr noOptions" by (simp add: bindOptions_def)
  from search_whitespace_query_is_searched [OF h b, of exampleExternals exampleService]
  obtain results where
    c: "candidates exampleExternals exampleService [CHR 0x09, CHR 0xA0] (limitOf noOptions)
          (useHybridOf noOptions) = Inr results" and
    s: "search exampleExternals exampleService [CHR 0x09, CHR 0xA0] Omitted =
          Inr (slice0
                 ((if includeHighlightsOf noOptions
                   then map (\<lambda>r. r\<lparr>highlights := Some []\<rparr>) else id)
                    (filter (\<lambda>r. thresholdOf noOptions \<le> relevanceScore r) results))
                 (limitOf noOptions))"
    by blast
  have "candidates exampleExternals exampleService [CHR 0x09, CHR 0xA0] (limitOf noOptions)
          (useHybridOf noOptions) =
        Inr [\<lparr>documentId = ''d1'', title = ''Fox'', content = ''The quick brown fox.'',
              relevanceScore = 0.8, searchType = Semantic, highlights = None\<rparr>,
             \<lparr>documentId = ''d2'', title = ''Dog'', content = ''A lazy dog.'',
              relevanceScore = - 0.8, searchType = Semantic, highlights = None\<rparr>]"
    by (simp add: candidates_def example_semantic example_keyword limitOf_def
        useHybridOf_def noOptions_def combineSearchResults_def mergeAll_def mergeResult_def
        slice0_def Let_def)
  with c have "results =
        [\<lparr>documentId = ''d1'', title = ''Fox'', content = ''The quick brown fox.'',
              relevanceScore = 0.8, searchType = Semantic, highlights = None\<rparr>,
             \<lparr>documentId = ''d2'', title = ''Dog'', content = ''A lazy dog.'',
              relevanceScore = - 0.8, searchType = Semantic, highlights = None\<rparr>]"
    by simp
  with s h b show ?thesis
    by (simp add: limitOf_def thresholdOf_def includeHighlightsOf_def noOptions_def slice0_def)
qed

text \<open>
  What the \<^verbatim>\<open>try\<close> blocks achieve: \<open>searchByDocument\<close> and \<open>getSimilarDocuments\<close>
  always return a list, \<open>search\<close> does so once its options are bound, and the list is
  empty whenever the body raised an exception (of the vector index, the keyword index,
  the regular expression engine, the database or the service itself).
\<close>

lemma queries_catch_their_errors:
  "(bindOptions arg = Inr options \<longrightarrow>
      (\<exists>rs. search X s query arg = Inr rs \<and>
            (\<forall>e. search_try X s query options = Inl e \<longrightarrow> rs = []))) \<and>
   (\<exists>rs. searchByDocument X d query arg = Inr rs \<and>
          (\<forall>e. searchByDocument_try X d query arg = Inl e \<longrightarrow> rs = [])) \<and>
   (\<exists>rs. getSimilarDocuments X s d limitArg = Inr rs \<and>
          (\<forall>e. getSimilarDocuments_try X s d limitArg = Inl e \<longrightarrow> rs = []))"
proof -
  have catch: "\<exists>rs. tryCatch body (\<lambda>error. Inr []) = Inr rs \<and> (\<forall>e. body = Inl e \<longrightarrow> rs = [])"
    for body :: "error + 'a list"
    by (cases body) (simp_all add: tryCatch_def)
  have "\<exists>rs. search X s query arg = Inr rs \<and>
            (\<forall>e. search_try X s query options = Inl e \<longrightarrow> rs = [])"
    if "bindOptions arg = Inr options"
    unfolding search_bound [OF that] by (rule catch)
  then show ?thesis
    unfolding searchByDocument_def getSimilarDocuments_def
    by (intro conjI impI catch)
qed

text \<open>
  The query \<^verbatim>\<open>fox(\<close> makes the regular expression constructor throw inside
  \<open>generateHighlights\<close>, and the malformed document id makes the database lookup throw;
  the three operations answer with the empty list.
\<close>

lemma example_fox_paren:
  "search_try exampleExternals exampleService ''fox('' noOptions = Inl SyntaxError"
  by (simp add: search_try_def candidates_def
      example_semantic example_keyword limitOf_def thresholdOf_def useHybridOf_def
      includeHighlightsOf_def noOptions_def combineSearchResults_def mergeAll_def
      mergeResult_def slice0_def Let_def example_regex generateHighlights_def split_on.simps
      toLowerCase_def lower_char_def is_space_def exampleMatcher_def char_of_eq_iff)

lemma queries_catch_their_errors_example:
  "search exampleExternals exampleService ''fox('' Omitted = Inr [] \<and>
   searchByDocument_try exampleExternals ''not-an-id'' ''fox'' Omitted = Inl DatabaseError \<and>
   searchByDocument exampleExternals ''not-an-id'' ''fox'' Omitted = Inr [] \<and>
   getSimilarDocuments_try exampleExternals exampleService ''not-an-id'' None = Inl DatabaseError \<and>
   getSimilarDocuments exampleExternals exampleService ''not-an-id'' None = Inr []"
proof -
  have 1: "search exampleExternals exampleService ''fox('' Omitted = Inr []"
    by (simp add: search_def bindOptions_def example_fox_paren tryCatch_def)
  have 2: "findById exampleExternals ''not-an-id'' = Inl DatabaseError"
    by (simp add: exampleExternals_def exampleFindById_def)
  show ?thesis
    by (simp add: 1 2 tryCatch_def searchByDocument_def searchByDocument_try_def
        getSimilarDocuments_def getSimilarDocuments_try_def)
qed

text \<open>
  Claim C10. \<open>search\<close>, \<open>searchByDocument\<close> and \<open>getSimilarDocuments\<close> should never
  throw and should answer an internal error with the empty list. \<open>search\<close> called with
  \<^verbatim>\<open>null\<close> for its options throws a \<^verbatim>\<open>TypeError\<close>: it destructures the options in
  front of its \<^verbatim>\<open>try\<close> block. \<open>searchByDocument\<close>, which reads the options inside its
  \<^verbatim>\<open>try\<close> block, answers the same argument with the empty list.
\<close>

theorem search_null_options_throws:
  "search exampleExternals exampleService ''fox'' Null = Inl TypeError \<and>
   searchByDocument_try exampleExternals ''d1'' ''fox'' Null = Inl TypeError \<and>
   searchByDocument exampleExternals ''d1'' ''fox'' Null = Inr []"
  by (simp add: search_def bindOptions_def searchByDocument_def searchByDocument_try_def
      tryCatch_def exampleExternals_def exampleFindById_def Let_def)

end
